theory Spec2Isabelle
  imports Complex_Main
begin

section \<open>Flow locks of viewflow (viewflow/lock.py)\<close>

text \<open>
  The module offers three lock implementations. Each is a callable that returns a
  generator-based context manager \<^verbatim>\<open>lock(flow_class, process_pk)\<close>; the workflow
  engine runs its task code as \<^verbatim>\<open>with lock(flow_class, pk): body\<close>.

  The embedding follows the protocol of \<^verbatim>\<open>contextlib.contextmanager\<close>:
  \<^item> entering the \<^verbatim>\<open>with\<close> statement runs the generator up to its \<^verbatim>\<open>yield\<close>
    (\<open>lock_enter\<close>); an exception raised before the \<^verbatim>\<open>yield\<close> leaves the statement
    without running the body, and a generator that finishes without yielding makes
    contextlib raise \<^verbatim>\<open>RuntimeError("generator didn't yield")\<close>;
  \<^item> the body runs; an exception it raises is thrown into the generator at the
    \<^verbatim>\<open>yield\<close>, a normal return resumes the generator there (\<open>lock_exit\<close>).

  Everything outside the module is an input of the model: the answers of the database, the
  samples of \<^verbatim>\<open>random.random()\<close>, whether a commit fails (record \<open>env\<close>), and
  the contents of the cache (record \<open>world\<close>). Every call the module makes to the
  outside is logged as an \<open>event\<close>, in order. Python floats are read as real numbers, so
  rounding is outside the model; the two ways the backoff can fail are in it: the
  conversion of \<^verbatim>\<open>2 ** i\<close> to a float overflows from \<^verbatim>\<open>i = 1024\<close> on, and
  \<^verbatim>\<open>time.sleep\<close> refuses a duration that does not fit its clock.
\<close>

subsection \<open>Exceptions, events, environment\<close>

datatype exn =
    FlowLockFailed string
  | DatabaseError string
  | RuntimeError string
  | OverflowError string
  | ValueError string
  | OtherError string

text \<open>The process key is an integer or a string; \<^verbatim>\<open>'{}'.format(pk)\<close> prints it.\<close>

datatype pk = IntPk int | StrPk string

datatype event =
    AtomicEnter
  | AtomicCommit
  | AtomicRollback
  | SelectForUpdate bool pk
  | Exists pk
  | CacheAdd string int int
  | CacheDelete string
  | Sleep real
  | Yield

text \<open>
  \<open>AtomicEnter\<close> is \<^verbatim>\<open>transaction.atomic().__enter__\<close>. A \<^verbatim>\<open>with transaction.atomic()\<close>
  block that is left with no exception in flight commits (\<open>AtomicCommit\<close>), and the commit
  itself may fail with a \<^verbatim>\<open>DatabaseError\<close>; a block that is left by an exception rolls
  back (\<open>AtomicRollback\<close>) and lets the exception pass.
\<close>

text \<open>
  The answer of \<^verbatim>\<open>process.select_for_update(nowait=...).exists()\<close>: the row is there and
  locked, there is no such row, or the query raises.
\<close>

datatype query_result = Found | Missing | Raises exn

record flow_class =
  flow_label :: string
  flow_str :: string

text \<open>
  \<open>flow_label\<close> is \<^verbatim>\<open>flow_class._meta.flow_label\<close>, \<open>flow_str\<close> is what
  \<^verbatim>\<open>'{}'.format(flow_class)\<close> prints.
\<close>

text \<open>What \<^verbatim>\<open>random.random()\<close> returns: a number in the half-open interval \<open>[0, 1)\<close>.\<close>

typedef sample = "{r::real. 0 \<le> r \<and> r < 1}"
  by (intro exI [of _ 0]) simp

record env =
  select_for_update_exists :: "bool \<Rightarrow> nat \<Rightarrow> query_result"
  process_exists :: "nat \<Rightarrow> bool"
  random_random :: "nat \<Rightarrow> sample"
  atomic_exit :: "nat \<Rightarrow> string option"

text \<open>
  The oracles are indexed by the attempt \<^verbatim>\<open>i\<close> of the retry loop that asks them.
  \<open>atomic_exit env i = Some m\<close> says that the commit of the transactional scope opened in
  attempt \<open>i\<close> raises \<^verbatim>\<open>DatabaseError(m)\<close> (\<open>NoLock\<close> and \<open>CacheLock\<close> open one scope,
  number 0).
\<close>

record world =
  cache :: "string \<rightharpoonup> int \<times> int"
  trace :: "event list"

definition init_world :: "(string \<rightharpoonup> int \<times> int) \<Rightarrow> world" where
  "init_world c = \<lparr>cache = c, trace = []\<rparr>"

definition emit :: "event \<Rightarrow> world \<Rightarrow> world" where
  "emit e w = w\<lparr>trace := trace w @ [e]\<rparr>"

subsection \<open>The cache\<close>

text \<open>
  Django's cache interface, as the module uses it: \<^verbatim>\<open>cache.add(key, value, timeout)\<close>
  stores the value only if the key is absent and returns whether it stored it;
  \<^verbatim>\<open>cache.delete(key)\<close> removes the key. The cache maps a key to its value and timeout.
\<close>

definition cache_add :: "string \<Rightarrow> int \<Rightarrow> int \<Rightarrow> world \<Rightarrow> bool \<times> world" where
  "cache_add key v timeout w =
     (let w1 = emit (CacheAdd key v timeout) w in
      case cache w key of
        Some old \<Rightarrow> (False, w1)
      | None \<Rightarrow> (True, w1\<lparr>cache := (cache w1)(key \<mapsto> (v, timeout))\<rparr>))"

definition cache_delete :: "string \<Rightarrow> world \<Rightarrow> world" where
  "cache_delete key w =
     (let w1 = emit (CacheDelete key) w in w1\<lparr>cache := (cache w1)(key := None)\<rparr>)"

subsection \<open>Printing the process key\<close>

definition digit_char :: "nat \<Rightarrow> char" where
  "digit_char d = ''0123456789'' ! d"

function str_nat :: "nat \<Rightarrow> string" where
  "str_nat n = (if n < 10 then [digit_char n] else str_nat (n div 10) @ [digit_char (n mod 10)])"
  by pat_completeness auto
termination
  by (relation "measure id") auto

declare str_nat.simps [simp del]

definition str_int :: "int \<Rightarrow> string" where
  "str_int k = (if k < 0 then CHR ''-'' # str_nat (nat (- k)) else str_nat (nat k))"

fun str_pk :: "pk \<Rightarrow> string" where
  "str_pk (IntPk k) = str_int k"
| "str_pk (StrPk s) = s"

subsection \<open>The backoff\<close>

text \<open>
  \<^verbatim>\<open>sleep_time = (((i + 1) * random.random()) + 2 ** i) / 2.5\<close>, in both retry loops.
  \<^verbatim>\<open>2 ** i\<close> is an exact integer; adding it to a float converts it to a float, which raises
  \<^verbatim>\<open>OverflowError\<close> when it is \<open>2 ^ 1024\<close> or more.
\<close>

definition sleep_time :: "nat \<Rightarrow> sample \<Rightarrow> exn + real" where
  "sleep_time i r =
     (if 1024 \<le> i then Inl (OverflowError ''int too large to convert to float'')
      else Inr (((real (i + 1) * Rep_sample r) + 2 ^ i) / 2.5))"

text \<open>
  \<^verbatim>\<open>time.sleep(secs)\<close> of CPython converts the duration to a signed 64-bit count of
  nanoseconds: it raises \<^verbatim>\<open>OverflowError\<close> when the duration does not fit (about
  \<open>9.2e9\<close> seconds), and \<^verbatim>\<open>ValueError\<close> when it is negative. A sleep that is performed
  is logged.
\<close>

definition sleep_max :: real where
  "sleep_max = 2 ^ 63 / 10 ^ 9"

definition time_sleep :: "real \<Rightarrow> world \<Rightarrow> exn + world" where
  "time_sleep secs w =
     (if sleep_max \<le> secs \<or> secs < - sleep_max
      then Inl (OverflowError ''timestamp too large to convert to C _PyTime_t'')
      else if secs < 0 then Inl (ValueError ''sleep length must be non-negative'')
      else Inr (emit (Sleep secs) w))"

text \<open>The two lines of the backoff, in attempt \<open>i\<close>.\<close>

definition backoff :: "env \<Rightarrow> nat \<Rightarrow> world \<Rightarrow> exn + world" where
  "backoff en i w =
     (case sleep_time i (random_random en i) of
        Inl e \<Rightarrow> Inl e
      | Inr secs \<Rightarrow> time_sleep secs w)"

subsection \<open>The lock implementations\<close>

datatype lock_impl =
    NoLock
  | SelectForUpdateLock bool int
  | CacheLock int int

text \<open>
  \<open>SelectForUpdateLock nowait attempts\<close> and \<open>CacheLock attempts expires\<close> carry the
  arguments of \<^verbatim>\<open>__init__\<close>; the cache of a \<open>CacheLock\<close> is the cache of the world.
\<close>

text \<open>What a generator suspended at its \<^verbatim>\<open>yield\<close> remembers.\<close>

datatype frame =
    NoLockFrame
  | SelectForUpdateFrame nat
  | CacheFrame string

definition lock_failed :: "flow_class \<Rightarrow> exn" where
  "lock_failed fc = FlowLockFailed (''Lock failed for '' @ flow_str fc)"

definition didnt_yield :: exn where
  "didnt_yield = RuntimeError (''generator didn'' @ [char_of (39::nat)] @ ''t yield'')"

text \<open>
  The \<^verbatim>\<open>try\<close> block of \<open>SelectForUpdateLock\<close>: the query, and
  \<^verbatim>\<open>raise DatabaseError('Process not exists')\<close> when it finds no row.
\<close>

definition select_for_update_try :: "env \<Rightarrow> bool \<Rightarrow> nat \<Rightarrow> exn + unit" where
  "select_for_update_try en nowait i =
     (case select_for_update_exists en nowait i of
        Found \<Rightarrow> Inr ()
      | Missing \<Rightarrow> Inl (DatabaseError ''Process not exists'')
      | Raises e \<Rightarrow> Inl e)"

text \<open>
  The loop of \<open>SelectForUpdateLock\<close>, from attempt \<open>i\<close> on, up to the \<^verbatim>\<open>yield\<close>.
  The \<^verbatim>\<open>except DatabaseError\<close> clause lies inside the \<^verbatim>\<open>with transaction.atomic()\<close>
  block: it sleeps, or raises \<^verbatim>\<open>FlowLockFailed\<close>, before the block is left. An
  exception of the backoff leaves the block as any exception does.
\<close>

function select_for_update_loop ::
  "env \<Rightarrow> bool \<Rightarrow> int \<Rightarrow> flow_class \<Rightarrow> pk \<Rightarrow> nat \<Rightarrow> world \<Rightarrow> (exn + frame) \<times> world" where
  "select_for_update_loop en nowait attempts fc p i w =
     (if int i < attempts then
        (let w1 = emit AtomicEnter w;
             w2 = emit (SelectForUpdate nowait p) w1
         in case select_for_update_try en nowait i of
              Inr u \<Rightarrow> (Inr (SelectForUpdateFrame i), emit Yield w2)
            | Inl (DatabaseError m) \<Rightarrow>
                (if int i \<noteq> attempts - 1 then
                   (case backoff en i w2 of
                      Inl e \<Rightarrow> (Inl e, emit AtomicRollback w2)
                    | Inr w3 \<Rightarrow>
                        (let w4 = emit AtomicCommit w3
                         in case atomic_exit en i of
                              Some m' \<Rightarrow> (Inl (DatabaseError m'), w4)
                            | None \<Rightarrow>
                                select_for_update_loop en nowait attempts fc p (Suc i) w4))
                 else (Inl (lock_failed fc), emit AtomicRollback w2))
            | Inl e \<Rightarrow> (Inl e, emit AtomicRollback w2))
      else (Inl didnt_yield, w))"
  by pat_completeness auto
termination
  by (relation "measure (\<lambda>(en, nowait, attempts, fc, p, i, w). nat (attempts - int i))") auto

declare select_for_update_loop.simps [simp del]

text \<open>
  The retry loop of \<open>CacheLock\<close>, from attempt \<open>i\<close> on. \<open>Inr\<close> is the \<^verbatim>\<open>break\<close>
  after a successful \<^verbatim>\<open>cache.add\<close>; \<open>Inl\<close> is the \<^verbatim>\<open>else\<close> clause of the loop, or
  an exception of the backoff.
\<close>

function cache_loop ::
  "env \<Rightarrow> int \<Rightarrow> int \<Rightarrow> flow_class \<Rightarrow> pk \<Rightarrow> string \<Rightarrow> nat \<Rightarrow> world \<Rightarrow> (exn + unit) \<times> world" where
  "cache_loop en attempts expires fc p key i w =
     (if int i < attempts then
        (let w1 = emit (Exists p) w;
             (stored, w2) = (if process_exists en i then cache_add key 1 expires w1
                             else (False, w1))
         in if stored then (Inr (), w2)
            else if int i \<noteq> attempts - 1 then
              (case backoff en i w2 of
                 Inl e \<Rightarrow> (Inl e, w2)
               | Inr w3 \<Rightarrow> cache_loop en attempts expires fc p key (Suc i) w3)
            else cache_loop en attempts expires fc p key (Suc i) w2)
      else (Inl (lock_failed fc), w))"
  by pat_completeness auto
termination
  by (relation "measure (\<lambda>(en, attempts, expires, fc, p, key, i, w). nat (attempts - int i))")
    auto

declare cache_loop.simps [simp del]

definition cache_lock_key :: "flow_class \<Rightarrow> pk \<Rightarrow> string" where
  "cache_lock_key fc p = ''django-viewflow-lock-'' @ flow_label fc @ ''/'' @ str_pk p"

text \<open>Entering \<^verbatim>\<open>with lock(flow_class, process_pk)\<close>: the generator up to its \<^verbatim>\<open>yield\<close>.\<close>

fun lock_enter ::
  "lock_impl \<Rightarrow> env \<Rightarrow> flow_class \<Rightarrow> pk \<Rightarrow> world \<Rightarrow> (exn + frame) \<times> world" where
  "lock_enter NoLock en fc p w = (Inr NoLockFrame, emit Yield (emit AtomicEnter w))"
| "lock_enter (SelectForUpdateLock nowait attempts) en fc p w =
     select_for_update_loop en nowait attempts fc p 0 w"
| "lock_enter (CacheLock attempts expires) en fc p w =
     (let key = cache_lock_key fc p
      in case cache_loop en attempts expires fc p key 0 w of
           (Inl e, w1) \<Rightarrow> (Inl e, w1)
         | (Inr u, w1) \<Rightarrow> (Inr (CacheFrame key), emit Yield (emit AtomicEnter w1)))"

text \<open>
  Leaving a \<^verbatim>\<open>with transaction.atomic()\<close> block, scope number \<open>i\<close>, with the exception
  in flight (if any). The result is the exception that leaves the block.
\<close>

definition atomic_leave :: "env \<Rightarrow> nat \<Rightarrow> exn option \<Rightarrow> world \<Rightarrow> exn option \<times> world" where
  "atomic_leave en i exc w =
     (case exc of
        Some e \<Rightarrow> (Some e, emit AtomicRollback w)
      | None \<Rightarrow> (map_option DatabaseError (atomic_exit en i), emit AtomicCommit w))"

text \<open>
  Leaving the \<^verbatim>\<open>with lock(...)\<close> statement: the generator from its \<^verbatim>\<open>yield\<close> on.
  \<open>exc\<close> is the exception the body raised, if it raised one. In \<open>CacheLock\<close> the
  \<^verbatim>\<open>finally\<close> clause deletes the key whatever left the \<^verbatim>\<open>atomic\<close> block.
\<close>

fun lock_exit :: "env \<Rightarrow> frame \<Rightarrow> exn option \<Rightarrow> world \<Rightarrow> exn option \<times> world" where
  "lock_exit en NoLockFrame exc w = atomic_leave en 0 exc w"
| "lock_exit en (SelectForUpdateFrame i) exc w = atomic_leave en i exc w"
| "lock_exit en (CacheFrame key) exc w =
     (let (r, w1) = atomic_leave en 0 exc w in (r, cache_delete key w1))"

text \<open>
  \<^verbatim>\<open>with lock(flow_class, process_pk): body\<close>. The body is any code: it returns or raises,
  and may change the world. The result is the exception that leaves the statement.
\<close>

definition with_lock ::
  "lock_impl \<Rightarrow> env \<Rightarrow> flow_class \<Rightarrow> pk \<Rightarrow> (world \<Rightarrow> exn option \<times> world) \<Rightarrow> world
     \<Rightarrow> exn option \<times> world" where
  "with_lock impl en fc p body w =
     (case lock_enter impl en fc p w of
        (Inl e, w1) \<Rightarrow> (Some e, w1)
      | (Inr fr, w1) \<Rightarrow> (let (exc, w2) = body w1 in lock_exit en fr exc w2))"

subsection \<open>Reading the event log\<close>

text \<open>
  The predicates and event lists the properties below are stated with. \<open>emits\<close> logs
  several events at once. \<open>backoff_duration i r\<close> is the value of the backoff
  expression for attempt \<open>i\<close> and sample \<open>r\<close>, \<open>sleeps\<close> lists the durations of the
  sleeps of a log, in order, and \<open>backoff_error i\<close> is the exception the backoff of
  attempt \<open>i\<close> raises when it cannot sleep. \<open>retry_events\<close> is the log of one attempt of
  \<open>SelectForUpdateLock\<close> that fails and is retried. \<open>scope_walk inside opn es\<close> walks the
  log \<open>es\<close>, starting with the transactional scope open or not (\<open>opn\<close>), and returns
  whether the scope is open at the end; it returns \<open>None\<close> when a scope is entered while
  one is open, left while none is open, or when a sleep happens with the scope open
  although \<open>inside\<close> is false, or with no scope open although \<open>inside\<close> is true.
  \<open>as_contention m en\<close> is the environment \<open>en\<close> where every missing row is
  reported as the contention error \<^verbatim>\<open>DatabaseError(m)\<close> instead.
\<close>

fun is_attempt :: "event \<Rightarrow> bool" where
  "is_attempt (SelectForUpdate nw p) = True"
| "is_attempt e = False"

fun is_sleep :: "event \<Rightarrow> bool" where
  "is_sleep (Sleep d) = True"
| "is_sleep e = False"

definition backoff_duration :: "nat \<Rightarrow> sample \<Rightarrow> real" where
  "backoff_duration i r = ((real i + 1) * Rep_sample r + 2 ^ i) / 2.5"

definition retry_events :: "env \<Rightarrow> bool \<Rightarrow> pk \<Rightarrow> nat \<Rightarrow> event list" where
  "retry_events en nowait p i =
     [AtomicEnter, SelectForUpdate nowait p, Sleep (backoff_duration i (random_random en i)),
      AtomicCommit]"

definition backoff_error :: "nat \<Rightarrow> exn" where
  "backoff_error i =
     (if 1024 \<le> i then OverflowError ''int too large to convert to float''
      else OverflowError ''timestamp too large to convert to C _PyTime_t'')"


fun scope_walk :: "bool \<Rightarrow> bool \<Rightarrow> event list \<Rightarrow> bool option" where
  "scope_walk inside opn [] = Some opn"
| "scope_walk inside opn (AtomicEnter # es) = (if opn then None else scope_walk inside True es)"
| "scope_walk inside opn (AtomicCommit # es) = (if opn then scope_walk inside False es else None)"
| "scope_walk inside opn (AtomicRollback # es) =
     (if opn then scope_walk inside False es else None)"
| "scope_walk inside opn (Sleep d # es) =
     (if opn = inside then scope_walk inside opn es else None)"
| "scope_walk inside opn (e # es) = scope_walk inside opn es"

definition as_contention :: "string \<Rightarrow> env \<Rightarrow> env" where
  "as_contention m en =
     en\<lparr>select_for_update_exists :=
          (\<lambda>nowait i. case select_for_update_exists en nowait i of
                         Missing \<Rightarrow> Raises (DatabaseError m)
                       | r \<Rightarrow> r)\<rparr>"

definition emits :: "event list \<Rightarrow> world \<Rightarrow> world" where
  "emits es w = w\<lparr>trace := trace w @ es\<rparr>"

subsection \<open>Example inputs\<close>

text \<open>
  A flow class, an empty cache, a database where every \<^verbatim>\<open>select_for_update\<close> fails (the
  first by contention, the later ones because the row is missing), a database where the row
  is found and locked at once, a database where every \<^verbatim>\<open>select_for_update\<close> meets
  contention and the first commit fails, and a task body that raises.
\<close>

definition example_flow :: flow_class where
  "example_flow = \<lparr>flow_label = ''helloworld/hello'', flow_str = ''HelloFlow''\<rparr>"

definition empty_cache :: "string \<rightharpoonup> int \<times> int" where
  "empty_cache = Map.empty"

definition contended_env :: env where
  "contended_env =
     \<lparr>select_for_update_exists =
        (\<lambda>nowait i. if i = 0 then Raises (DatabaseError ''could not obtain lock'') else Missing),
      process_exists = (\<lambda>i. True),
      random_random = (\<lambda>i. Abs_sample (1 / 2)),
      atomic_exit = (\<lambda>i. None)\<rparr>"

definition free_env :: env where
  "free_env =
     \<lparr>select_for_update_exists = (\<lambda>nowait i. Found),
      process_exists = (\<lambda>i. True),
      random_random = (\<lambda>i. Abs_sample (1 / 4)),
      atomic_exit = (\<lambda>i. None)\<rparr>"

definition commit_fails_env :: env where
  "commit_fails_env =
     \<lparr>select_for_update_exists = (\<lambda>nowait i. Raises (DatabaseError ''could not obtain lock'')),
      process_exists = (\<lambda>i. True),
      random_random = (\<lambda>i. Abs_sample (1 / 2)),
      atomic_exit = (\<lambda>i. if i = 0 then Some ''commit failed'' else None)\<rparr>"

definition failing_body :: "world \<Rightarrow> exn option \<times> world" where
  "failing_body w = (Some (OtherError ''task failed''), w)"

text \<open>A cache where the lock key of process 7 of the example flow is already held.\<close>

definition held_cache :: "string \<rightharpoonup> int \<times> int" where
  "held_cache = [cache_lock_key example_flow (IntPk 7) \<mapsto> (1, 120)]"

section \<open>Properties\<close>

subsection \<open>The event log\<close>

lemma trace_emit [simp]: "trace (emit e w) = trace w @ [e]"
  by (simp add: emit_def)

lemma cache_emit [simp]: "cache (emit e w) = cache w"
  by (simp add: emit_def)

lemma trace_emits [simp]: "trace (emits es w) = trace w @ es"
  by (simp add: emits_def)

lemma cache_emits [simp]: "cache (emits es w) = cache w"
  by (simp add: emits_def)

lemma emit_emits: "emit e w = emits [e] w"
  by (simp add: emit_def emits_def)

lemma emits_emits [simp]: "emits es (emits ds w) = emits (ds @ es) w"
  by (simp add: emits_def)

lemma scope_walk_append:
  "scope_walk ins b (xs @ ys) =
     (case scope_walk ins b xs of None \<Rightarrow> None | Some b' \<Rightarrow> scope_walk ins b' ys)"
  by (induction ins b xs rule: scope_walk.induct) auto

subsection \<open>The backoff sleeps below attempt 35\<close>

lemma sample_range: "0 \<le> Rep_sample r" "Rep_sample r < 1"
  using Rep_sample [of r] by simp_all

lemma sleep_time_value:
  "i < 1024 \<Longrightarrow> sleep_time i r = Inr (backoff_duration i r)"
  by (simp add: sleep_time_def backoff_duration_def add.commute)

lemma backoff_duration_nonneg: "0 \<le> backoff_duration i r"
  using sample_range(1) [of r] by (simp add: backoff_duration_def)

lemma backoff_duration_small:
  assumes "i < 35"
  shows "backoff_duration i r < sleep_max"
proof -
  have "(2::real) ^ i \<le> 2 ^ 34"
    using assms by (intro power_increasing) auto
  moreover have "(real i + 1) * Rep_sample r \<le> 35 * 1"
    using assms sample_range [of r] by (intro mult_mono) auto
  ultimately have "(real i + 1) * Rep_sample r + 2 ^ i \<le> 35 + 2 ^ 34"
    by linarith
  then show ?thesis
    by (simp add: backoff_duration_def sleep_max_def field_simps)
qed

lemma backoff_duration_large:
  assumes "35 \<le> i"
  shows "sleep_max \<le> backoff_duration i r"
proof -
  have "(2::real) ^ 35 \<le> 2 ^ i"
    using assms by (intro power_increasing) auto
  moreover have "0 \<le> (real i + 1) * Rep_sample r"
    using sample_range(1) [of r] by simp
  ultimately have "2 ^ 35 \<le> (real i + 1) * Rep_sample r + 2 ^ i"
    by linarith
  then show ?thesis
    by (simp add: backoff_duration_def sleep_max_def field_simps)
qed

lemma backoff_sleeps:
  "i < 35 \<Longrightarrow>
   backoff en i w = Inr (emit (Sleep (backoff_duration i (random_random en i))) w)"
  using backoff_duration_small [of i "random_random en i"]
    backoff_duration_nonneg [of i "random_random en i"]
  by (simp add: backoff_def sleep_time_value time_sleep_def)

lemma backoff_overflows:
  "35 \<le> i \<Longrightarrow> backoff en i w = Inl (backoff_error i)"
  using backoff_duration_large [of i "random_random en i"]
  by (cases "i < 1024")
    (simp_all add: backoff_def sleep_time_value time_sleep_def backoff_error_def,
      simp add: sleep_time_def)


subsection \<open>Steps of the two loops\<close>

lemma select_for_update_loop_cases [case_names finished found raised commit_failed retry]:
  obtains
    "\<not> int i < attempts"
    "select_for_update_loop en nowait attempts fc p i w = (Inl didnt_yield, w)"
  | "int i < attempts" "select_for_update_exists en nowait i = Found"
    "select_for_update_loop en nowait attempts fc p i w =
       (Inr (SelectForUpdateFrame i), emits [AtomicEnter, SelectForUpdate nowait p, Yield] w)"
  | e where "int i < attempts"
    "select_for_update_loop en nowait attempts fc p i w =
       (Inl e, emits [AtomicEnter, SelectForUpdate nowait p, AtomicRollback] w)"
    "(\<exists>m. select_for_update_try en nowait i = Inl (DatabaseError m)) \<and> int i = attempts - 1
       \<and> e = lock_failed fc
     \<or> select_for_update_try en nowait i = Inl e \<and> (\<forall>m. e \<noteq> DatabaseError m)
     \<or> (\<exists>m. select_for_update_try en nowait i = Inl (DatabaseError m)) \<and> int i < attempts - 1
       \<and> 35 \<le> i \<and> e = backoff_error i"
  | m m' where "int i < attempts - 1"
    "select_for_update_try en nowait i = Inl (DatabaseError m)" "atomic_exit en i = Some m'"
    "select_for_update_loop en nowait attempts fc p i w =
       (Inl (DatabaseError m'), emits (retry_events en nowait p i) w)"
    "i < 35"
  | m where "int i < attempts - 1"
    "select_for_update_try en nowait i = Inl (DatabaseError m)" "atomic_exit en i = None"
    "select_for_update_loop en nowait attempts fc p i w =
       select_for_update_loop en nowait attempts fc p (Suc i)
         (emits (retry_events en nowait p i) w)"
    "i < 35"
proof (cases "int i < attempts")
  case False
  then show ?thesis
    using that(1) by (simp add: select_for_update_loop.simps [of _ _ _ _ _ i])
next
  case lt: True
  show ?thesis
  proof (cases "select_for_update_try en nowait i")
    case (Inr u)
    then have "select_for_update_exists en nowait i = Found"
      by (simp add: select_for_update_try_def split: query_result.splits)
    then show ?thesis
      using that(2) lt Inr
      by (simp add: select_for_update_loop.simps [of _ _ _ _ _ i] emit_emits)
  next
    case (Inl e)
    show ?thesis
    proof (cases "\<exists>m. e = DatabaseError m")
      case False
      then have "select_for_update_loop en nowait attempts fc p i w =
         (Inl e, emits [AtomicEnter, SelectForUpdate nowait p, AtomicRollback] w)"
        using lt Inl
        by (cases e) (simp_all add: select_for_update_loop.simps [of _ _ _ _ _ i] emit_emits)
      then show ?thesis
        using that(3) lt Inl False by blast
    next
      case True
      then obtain m where m: "e = DatabaseError m" ..
      show ?thesis
      proof (cases "int i = attempts - 1")
        case True
        then have "select_for_update_loop en nowait attempts fc p i w =
           (Inl (lock_failed fc),
            emits [AtomicEnter, SelectForUpdate nowait p, AtomicRollback] w)"
          using lt Inl m
          by (simp add: select_for_update_loop.simps [of _ _ _ _ _ i] emit_emits)
        then show ?thesis
          using that(3) lt Inl m True by blast
      next
        case False
        then have lt': "int i < attempts - 1"
          using lt by linarith
        show ?thesis
        proof (cases "i < 35")
          case False
          then have "select_for_update_loop en nowait attempts fc p i w =
             (Inl (backoff_error i),
              emits [AtomicEnter, SelectForUpdate nowait p, AtomicRollback] w)"
            using lt \<open>int i \<noteq> attempts - 1\<close> Inl m
            by (simp add: select_for_update_loop.simps [of _ _ _ _ _ i] emit_emits
                backoff_overflows)
          then show ?thesis
            using that(3) [of "backoff_error i"] lt lt' Inl m False by auto
        next
          case small: True
          show ?thesis
          proof (cases "atomic_exit en i")
            case None
            then have "select_for_update_loop en nowait attempts fc p i w =
               select_for_update_loop en nowait attempts fc p (Suc i)
                 (emits (retry_events en nowait p i) w)"
              using lt False Inl m small
              by (simp add: select_for_update_loop.simps [of _ _ _ _ _ i] emit_emits
                  retry_events_def backoff_sleeps)
            then show ?thesis
              using that(5) lt' Inl m None small by blast
          next
            case (Some m')
            then have "select_for_update_loop en nowait attempts fc p i w =
               (Inl (DatabaseError m'), emits (retry_events en nowait p i) w)"
              using lt False Inl m small
              by (simp add: select_for_update_loop.simps [of _ _ _ _ _ i] emit_emits
                  retry_events_def backoff_sleeps)
            then show ?thesis
              using that(4) lt' Inl m Some small by blast
          qed
        qed
      qed
    qed
  qed
qed

lemma cache_add_emits:
  "cache_add key v t w =
     (case cache w key of
        Some old \<Rightarrow> (False, emits [CacheAdd key v t] w)
      | None \<Rightarrow> (True, (emits [CacheAdd key v t] w)\<lparr>cache := (cache w)(key \<mapsto> (v, t))\<rparr>))"
  by (simp add: cache_add_def emit_emits split: option.split)

lemma cache_loop_cases [case_names finished stored retry overflow]:
  obtains
    "\<not> int i < attempts"
    "cache_loop en attempts expires fc p key i w = (Inl (lock_failed fc), w)"
  | "int i < attempts" "process_exists en i" "cache w key = None"
    "cache_loop en attempts expires fc p key i w =
       (Inr (), (emits [Exists p, CacheAdd key 1 expires] w)
                  \<lparr>cache := (cache w)(key \<mapsto> (1, expires))\<rparr>)"
  | "int i < attempts" "\<not> (process_exists en i \<and> cache w key = None)"
    "cache_loop en attempts expires fc p key i w =
       cache_loop en attempts expires fc p key (Suc i)
         (emits (Exists p # (if process_exists en i then [CacheAdd key 1 expires] else []) @
                 (if int i \<noteq> attempts - 1
                  then [Sleep (backoff_duration i (random_random en i))]
                  else [])) w)"
    "int i = attempts - 1 \<or> i < 35"
  | "int i < attempts - 1" "\<not> (process_exists en i \<and> cache w key = None)" "35 \<le> i"
    "cache_loop en attempts expires fc p key i w =
       (Inl (backoff_error i),
        emits (Exists p # (if process_exists en i then [CacheAdd key 1 expires] else [])) w)"
proof (cases "int i < attempts")
  case False
  then show ?thesis
    using that(1) by (simp add: cache_loop.simps [of _ _ _ _ _ _ i])
next
  case lt: True
  show ?thesis
  proof (cases "process_exists en i \<and> cache w key = None")
    case True
    then have "cache_loop en attempts expires fc p key i w =
       (Inr (), (emits [Exists p, CacheAdd key 1 expires] w)
                  \<lparr>cache := (cache w)(key \<mapsto> (1, expires))\<rparr>)"
      using lt
      by (simp add: cache_loop.simps [of _ _ _ _ _ _ i] cache_add_emits emit_emits)
    then show ?thesis
      using that(2) lt True by simp
  next
    case fails: False
    show ?thesis
    proof (cases "int i = attempts - 1 \<or> i < 35")
      case True
      then have "cache_loop en attempts expires fc p key i w =
         cache_loop en attempts expires fc p key (Suc i)
           (emits (Exists p # (if process_exists en i then [CacheAdd key 1 expires] else []) @
                   (if int i \<noteq> attempts - 1
                    then [Sleep (backoff_duration i (random_random en i))]
                    else [])) w)"
        using lt fails
        by (auto simp add: cache_loop.simps [of _ _ _ _ _ _ i] cache_add_emits emit_emits
            backoff_sleeps split: option.splits)
      then show ?thesis
        using that(3) lt fails True by simp
    next
      case False
      then have big: "35 \<le> i" and lt': "int i < attempts - 1"
        using lt by auto
      then have "cache_loop en attempts expires fc p key i w =
         (Inl (backoff_error i),
          emits (Exists p # (if process_exists en i then [CacheAdd key 1 expires] else [])) w)"
        using lt fails
        by (auto simp add: cache_loop.simps [of _ _ _ _ _ _ i] cache_add_emits emit_emits
            backoff_overflows split: option.splits)
      then show ?thesis
        using that(4) lt' fails big by simp
    qed
  qed
qed

subsection \<open>The example inputs, evaluated\<close>

lemma example_key:
  "cache_lock_key example_flow (IntPk 7) = ''django-viewflow-lock-helloworld/hello/7''"
  by (simp add: cache_lock_key_def example_flow_def str_int_def str_nat.simps digit_char_def)

lemma example_str: "flow_str example_flow = ''HelloFlow''"
  by (simp add: example_flow_def)

lemma example_label: "flow_label example_flow = ''helloworld/hello''"
  by (simp add: example_flow_def)

lemma str_pk_7: "str_pk (IntPk 7) = ''7''"
  by (simp add: str_int_def str_nat.simps digit_char_def)

lemma half_sample: "Rep_sample (Abs_sample (1 / 2)) = 1 / 2"
  by (simp add: Abs_sample_inverse)

lemma contended_random: "random_random contended_env i = Abs_sample (1 / 2)"
  by (simp add: contended_env_def)

lemma half_durations:
  "backoff_duration 0 (Abs_sample (1 / 2)) = 3 / 5"
  "backoff_duration (Suc 0) (Abs_sample (1 / 2)) = 6 / 5"
  by (simp_all add: backoff_duration_def half_sample)

subsection \<open>SelectForUpdateLock under permanent contention\<close>

lemma count_retry_attempts:
  "length (filter is_attempt (concat (map (retry_events en nowait p) js))) = length js"
  by (induction js) (simp_all add: retry_events_def)

lemma count_retry_sleeps:
  "length (filter is_sleep (concat (map (retry_events en nowait p) js))) = length js"
  by (induction js) (simp_all add: retry_events_def)

lemma no_yield_retry: "Yield \<notin> set (concat (map (retry_events en nowait p) js))"
  by (induction js) (simp_all add: retry_events_def)

lemma contended_loop:
  assumes "\<And>j. i \<le> j \<Longrightarrow> int j < N \<Longrightarrow>
             \<exists>m. select_for_update_try en nowait j = Inl (DatabaseError m)"
    and "\<And>j. int j < N - 1 \<Longrightarrow> atomic_exit en j = None"
    and "int i < N" and "N \<le> 36"
  shows "select_for_update_loop en nowait N fc p i w =
     (Inl (lock_failed fc),
      emits (concat (map (retry_events en nowait p) [i..<nat N - 1]) @
             [AtomicEnter, SelectForUpdate nowait p, AtomicRollback]) w)"
  using assms
proof (induction "nat (N - int i)" arbitrary: i w rule: less_induct)
  case less
  from less.prems(1) [of i] less.prems(3)
  obtain m where m: "select_for_update_try en nowait i = Inl (DatabaseError m)"
    by auto
  show ?case
  proof (cases rule: select_for_update_loop_cases [of i N en nowait fc p w])
    case finished
    with less.prems(3) show ?thesis by simp
  next
    case found
    with m show ?thesis by (simp add: select_for_update_try_def)
  next
    case (raised e)
    have "\<not> (int i < N - 1 \<and> 35 \<le> i)"
      using less.prems(4) by linarith
    with raised m have "int i = N - 1" and "e = lock_failed fc"
      by auto
    then have "[i..<nat N - 1] = []"
      by auto
    then show ?thesis
      by (subst raised(2), subst \<open>[i..<nat N - 1] = []\<close>) (simp add: \<open>e = lock_failed fc\<close>)
  next
    case (commit_failed m1 m')
    with less.prems(2) [of i] show ?thesis by simp
  next
    case (retry m1)
    have "nat (N - int (Suc i)) < nat (N - int i)"
      using retry(1) by linarith
    moreover have "int (Suc i) < N"
      using retry(1) by linarith
    ultimately have "select_for_update_loop en nowait N fc p (Suc i)
        (emits (retry_events en nowait p i) w) =
      (Inl (lock_failed fc),
       emits (concat (map (retry_events en nowait p) [Suc i..<nat N - 1]) @
              [AtomicEnter, SelectForUpdate nowait p, AtomicRollback])
         (emits (retry_events en nowait p i) w))"
      using less.hyps [of "Suc i"] less.prems(1,2,4) by simp
    moreover have "[i..<nat N - 1] = i # [Suc i..<nat N - 1]"
      using retry(1) by (simp add: upt_conv_Cons)
    ultimately show ?thesis
      using retry(4) by simp
  qed
qed

lemma overflow_loop:
  assumes "\<And>j. j \<le> 35 \<Longrightarrow> \<exists>m. select_for_update_try en nowait j = Inl (DatabaseError m)"
    and "\<And>j. j < 35 \<Longrightarrow> atomic_exit en j = None"
    and "36 < N" and "i \<le> 35"
  shows "select_for_update_loop en nowait N fc p i w =
     (Inl (backoff_error 35),
      emits (concat (map (retry_events en nowait p) [i..<35]) @
             [AtomicEnter, SelectForUpdate nowait p, AtomicRollback]) w)"
  using assms(4)
proof (induction "35 - i" arbitrary: i w rule: less_induct)
  case less
  from assms(1) [of i] less.prems
  obtain m where m: "select_for_update_try en nowait i = Inl (DatabaseError m)"
    by auto
  have lt: "int i < N - 1"
    using less.prems assms(3) by linarith
  show ?case
  proof (cases rule: select_for_update_loop_cases [of i N en nowait fc p w])
    case finished
    with lt show ?thesis by simp
  next
    case found
    with m show ?thesis by (simp add: select_for_update_try_def)
  next
    case (raised e)
    with m lt have "35 \<le> i" and "e = backoff_error i"
      by auto
    with less.prems have "i = 35"
      by simp
    then show ?thesis
      using raised(2) \<open>e = backoff_error i\<close> by simp
  next
    case (commit_failed m1 m')
    with assms(2) [of i] show ?thesis by simp
  next
    case (retry m1)
    have "35 - Suc i < 35 - i" and "Suc i \<le> 35"
      using retry(5) by simp_all
    then have "select_for_update_loop en nowait N fc p (Suc i)
        (emits (retry_events en nowait p i) w) =
      (Inl (backoff_error 35),
       emits (concat (map (retry_events en nowait p) [Suc i..<35]) @
              [AtomicEnter, SelectForUpdate nowait p, AtomicRollback])
         (emits (retry_events en nowait p i) w))"
      using less.hyps [of "Suc i"] by simp
    moreover have "[i..<35] = i # [Suc i..<35]"
      using retry(5) by (simp add: upt_conv_Cons)
    ultimately show ?thesis
      using retry(4) by simp
  qed
qed

text \<open>
  Claim C2 says that \<open>SelectForUpdateLock\<close> with \<open>attempts = N \<ge> 1\<close>, when every
  attempt meets contention, makes exactly \<open>N\<close> attempts, sleeps \<open>N - 1\<close> times and raises
  \<^verbatim>\<open>FlowLockFailed\<close>. It fails in two ways. With three attempts, all contended, when
  the commit that closes the scope of the first attempt fails: the \<^verbatim>\<open>DatabaseError\<close> of
  the commit leaves the lock after one attempt and one sleep. With 37 attempts, all
  contended: the backoff of attempt 35 is longer than \<^verbatim>\<open>time.sleep\<close> accepts, and
  \<^verbatim>\<open>OverflowError\<close> leaves the lock after 36 attempts and 35 sleeps.
\<close>

theorem select_for_update_permanent_contention_counterexample:
  "with_lock (SelectForUpdateLock True 3) commit_fails_env example_flow (IntPk 7) failing_body
      (init_world empty_cache) =
     (Some (DatabaseError ''commit failed''),
      \<lparr>cache = empty_cache,
       trace = [AtomicEnter, SelectForUpdate True (IntPk 7), Sleep (3 / 5), AtomicCommit]\<rparr>)
   \<and> fst (with_lock (SelectForUpdateLock True 37) contended_env example_flow (IntPk 7)
        failing_body (init_world empty_cache)) =
       Some (OverflowError ''timestamp too large to convert to C _PyTime_t'')
   \<and> length (filter is_attempt (trace (snd (with_lock (SelectForUpdateLock True 37)
        contended_env example_flow (IntPk 7) failing_body (init_world empty_cache))))) = 36
   \<and> length (filter is_sleep (trace (snd (with_lock (SelectForUpdateLock True 37)
        contended_env example_flow (IntPk 7) failing_body (init_world empty_cache))))) = 35"
proof -
  have "select_for_update_loop commit_fails_env True 3 example_flow (IntPk 7) 0
      (init_world empty_cache) =
     (Inl (DatabaseError ''commit failed''),
      \<lparr>cache = empty_cache,
       trace = [AtomicEnter, SelectForUpdate True (IntPk 7), Sleep (3 / 5), AtomicCommit]\<rparr>)"
    by (simp add: select_for_update_loop.simps [of _ _ _ _ _ 0] select_for_update_try_def
        commit_fails_env_def backoff_sleeps init_world_def emit_def half_durations)
  then have a: "with_lock (SelectForUpdateLock True 3) commit_fails_env example_flow (IntPk 7)
      failing_body (init_world empty_cache) =
     (Some (DatabaseError ''commit failed''),
      \<lparr>cache = empty_cache,
       trace = [AtomicEnter, SelectForUpdate True (IntPk 7), Sleep (3 / 5), AtomicCommit]\<rparr>)"
    by (simp add: with_lock_def)
  have "select_for_update_loop contended_env True 37 example_flow (IntPk 7) 0
      (init_world empty_cache) =
     (Inl (backoff_error 35),
      emits (concat (map (retry_events contended_env True (IntPk 7)) [0..<35]) @
             [AtomicEnter, SelectForUpdate True (IntPk 7), AtomicRollback])
        (init_world empty_cache))"
    by (rule overflow_loop)
      (simp_all add: contended_env_def select_for_update_try_def)
  then have b: "with_lock (SelectForUpdateLock True 37) contended_env example_flow (IntPk 7)
      failing_body (init_world empty_cache) =
     (Some (backoff_error 35),
      emits (concat (map (retry_events contended_env True (IntPk 7)) [0..<35]) @
             [AtomicEnter, SelectForUpdate True (IntPk 7), AtomicRollback])
        (init_world empty_cache))"
    by (simp add: with_lock_def)
  show ?thesis
    unfolding a b
    by (simp add: init_world_def count_retry_attempts count_retry_sleeps backoff_error_def)
qed

text \<open>
  Claim C2, amended. \<open>SelectForUpdateLock\<close> with \<open>attempts = N\<close>, \<open>1 \<le> N \<le> 36\<close>: if
  every attempt meets contention (the query raises a \<^verbatim>\<open>DatabaseError\<close>, or finds no
  row), and the scopes of the attempts that are retried close without an error of their
  own, then the \<^verbatim>\<open>with\<close> statement logs \<open>N - 1\<close> retried attempts, each with one
  sleep, then a last attempt with no sleep: \<open>N\<close> attempts and \<open>N - 1\<close> sleeps in all.
  It raises \<^verbatim>\<open>FlowLockFailed\<close> with the flow class in its message, and it never yields
  to the body.
\<close>

theorem select_for_update_permanent_contention:
  assumes "1 \<le> N" and "N \<le> 36"
    and "\<forall>i. int i < N \<longrightarrow>
           select_for_update_exists en nowait i = Missing \<or>
           (\<exists>m. select_for_update_exists en nowait i = Raises (DatabaseError m))"
    and "\<forall>i. int i < N - 1 \<longrightarrow> atomic_exit en i = None"
  shows "\<exists>evs. with_lock (SelectForUpdateLock nowait N) en fc p body w =
           (Some (FlowLockFailed (''Lock failed for '' @ flow_str fc)),
            w\<lparr>trace := trace w @ evs\<rparr>)
         \<and> evs = concat (map (retry_events en nowait p) [0..<nat N - 1]) @
                 [AtomicEnter, SelectForUpdate nowait p, AtomicRollback]
         \<and> length (filter is_attempt evs) = nat N
         \<and> length (filter is_sleep evs) = nat N - 1
         \<and> Yield \<notin> set evs"
proof -
  let ?evs = "concat (map (retry_events en nowait p) [0..<nat N - 1]) @
                 [AtomicEnter, SelectForUpdate nowait p, AtomicRollback]"
  have contended: "\<exists>m. select_for_update_try en nowait j = Inl (DatabaseError m)" if "int j < N" for j
    using assms(3) that by (auto simp: select_for_update_try_def)
  have "select_for_update_loop en nowait N fc p 0 w = (Inl (lock_failed fc), emits ?evs w)"
    using assms(1,2,4) by (intro contended_loop contended) auto
  then have "with_lock (SelectForUpdateLock nowait N) en fc p body w =
           (Some (FlowLockFailed (''Lock failed for '' @ flow_str fc)),
            w\<lparr>trace := trace w @ ?evs\<rparr>)"
    by (simp add: with_lock_def lock_failed_def emits_def)
  moreover have "length (filter is_attempt ?evs) = nat N"
    using assms(1) by (simp add: count_retry_attempts)
  moreover have "length (filter is_sleep ?evs) = nat N - 1"
    by (simp add: count_retry_sleeps)
  moreover have "Yield \<notin> set ?evs"
    using no_yield_retry [of en nowait p "[0..<nat N - 1]"] by simp
  ultimately show ?thesis
    by blast
qed

theorem select_for_update_permanent_contention_witness:
  "\<exists>evs. with_lock (SelectForUpdateLock True 3) contended_env example_flow (IntPk 7) failing_body
            (init_world empty_cache) =
           (Some (FlowLockFailed ''Lock failed for HelloFlow''),
            \<lparr>cache = empty_cache, trace = evs\<rparr>)
         \<and> evs = [AtomicEnter, SelectForUpdate True (IntPk 7), Sleep (3 / 5), AtomicCommit,
                  AtomicEnter, SelectForUpdate True (IntPk 7), Sleep (6 / 5), AtomicCommit,
                  AtomicEnter, SelectForUpdate True (IntPk 7), AtomicRollback]
         \<and> length (filter is_attempt evs) = 3
         \<and> length (filter is_sleep evs) = 2
         \<and> Yield \<notin> set evs"
  using select_for_update_permanent_contention
    [of 3 contended_env True example_flow "IntPk 7" failing_body "init_world empty_cache"]
  by (simp add: contended_env_def example_flow_def init_world_def retry_events_def
      half_durations upt_conv_Cons numeral_3_eq_3)

subsection \<open>CacheLock releases its key\<close>

lemma cache_loop_acquired:
  "cache_loop en attempts expires fc p key i w = (Inr u, w') \<Longrightarrow>
   cache w' key = Some (1, expires)"
proof (induction "nat (attempts - int i)" arbitrary: i w rule: less_induct)
  case less
  show ?case
  proof (cases rule: cache_loop_cases [of i attempts en expires fc p key w])
    case finished
    with less.prems show ?thesis by simp
  next
    case stored
    with less.prems show ?thesis by auto
  next
    case retry
    have "nat (attempts - int (Suc i)) < nat (attempts - int i)"
      using retry(1) by linarith
    then show ?thesis
      using less.hyps [of "Suc i"] less.prems retry(3) by simp
  next
    case overflow
    with less.prems show ?thesis by simp
  qed
qed

text \<open>
  Claim C1. \<open>CacheLock\<close>: when the generator reaches its \<^verbatim>\<open>yield\<close> (the
  \<^verbatim>\<open>cache.add\<close> of the lock key succeeded, and the key is in the cache), then whatever the
  body does and however the \<^verbatim>\<open>with\<close> statement ends (the body returns and the commit
  succeeds, the body raises, or the commit fails with a \<^verbatim>\<open>DatabaseError\<close>), the last
  thing the statement does is \<^verbatim>\<open>cache.delete\<close> of the lock key: the key is absent from
  the cache in the world the caller gets back together with the exception, if there is one.
\<close>

theorem cache_lock_always_released:
  assumes "lock_enter (CacheLock attempts expires) en fc p w = (Inr fr, w1)"
    and "body w1 = (exc, w2)"
  shows "fr = CacheFrame (cache_lock_key fc p)
     \<and> cache w1 (cache_lock_key fc p) = Some (1, expires)
     \<and> fst (with_lock (CacheLock attempts expires) en fc p body w) =
         (case exc of Some e \<Rightarrow> Some e | None \<Rightarrow> map_option DatabaseError (atomic_exit en 0))
     \<and> trace (snd (with_lock (CacheLock attempts expires) en fc p body w)) =
         trace w2 @ [if exc = None then AtomicCommit else AtomicRollback,
                     CacheDelete (cache_lock_key fc p)]
     \<and> cache (snd (with_lock (CacheLock attempts expires) en fc p body w)) =
         (cache w2)(cache_lock_key fc p := None)"
proof -
  let ?k = "cache_lock_key fc p"
  obtain r w0 where loop: "cache_loop en attempts expires fc p ?k 0 w = (r, w0)"
    by (cases "cache_loop en attempts expires fc p ?k 0 w")
  with assms(1) obtain u where u: "r = Inr u" and fr: "fr = CacheFrame ?k"
    and w1: "w1 = emit Yield (emit AtomicEnter w0)"
    by (cases r) (auto simp: Let_def)
  have "cache w0 ?k = Some (1, expires)"
    using cache_loop_acquired loop u by blast
  then have held: "cache w1 ?k = Some (1, expires)"
    by (simp add: w1)
  have run: "with_lock (CacheLock attempts expires) en fc p body w = lock_exit en fr exc w2"
    using assms by (simp add: with_lock_def)
  show ?thesis
    using fr held
    by (cases exc) (simp_all add: run atomic_leave_def cache_delete_def)
qed

text \<open>
  The theorem at work: five attempts, the row exists, the cache is empty, the body
  raises.
\<close>

theorem cache_lock_always_released_witness:
  "fst (with_lock (CacheLock 5 120) free_env example_flow (IntPk 7) failing_body
          (init_world empty_cache)) = Some (OtherError ''task failed'')
   \<and> trace (snd (with_lock (CacheLock 5 120) free_env example_flow (IntPk 7) failing_body
          (init_world empty_cache))) =
       [Exists (IntPk 7), CacheAdd ''django-viewflow-lock-helloworld/hello/7'' 1 120,
        AtomicEnter, Yield, AtomicRollback,
        CacheDelete ''django-viewflow-lock-helloworld/hello/7'']
   \<and> cache (snd (with_lock (CacheLock 5 120) free_env example_flow (IntPk 7) failing_body
          (init_world empty_cache))) ''django-viewflow-lock-helloworld/hello/7'' = None"
proof -
  let ?k = "''django-viewflow-lock-helloworld/hello/7''"
  let ?w1 = "\<lparr>cache = empty_cache(?k \<mapsto> (1, 120)),
              trace = [Exists (IntPk 7), CacheAdd ?k 1 120, AtomicEnter, Yield]\<rparr>"
  have enter: "lock_enter (CacheLock 5 120) free_env example_flow (IntPk 7)
      (init_world empty_cache) = (Inr (CacheFrame ?k), ?w1)"
    by (simp add: cache_loop.simps [of _ _ _ _ _ _ 0] example_key cache_add_def
        free_env_def init_world_def emit_def empty_cache_def Let_def)
  have body: "failing_body ?w1 = (Some (OtherError ''task failed''), ?w1)"
    by (simp add: failing_body_def)
  show ?thesis
    using cache_lock_always_released
      [of 5 120 free_env example_flow "IntPk 7" "init_world empty_cache" "CacheFrame ?k" ?w1
        failing_body "Some (OtherError ''task failed'')" ?w1]
      enter body
    by (simp add: example_key)
qed

subsection \<open>Sleeping and the transactional scope\<close>

lemma select_for_update_loop_scoped:
  "scope_walk True False (trace w) = Some False \<Longrightarrow>
   scope_walk True False (trace (snd (select_for_update_loop en nowait attempts fc p i w))) \<noteq> None"
proof (induction "nat (attempts - int i)" arbitrary: i w rule: less_induct)
  case less
  show ?case
  proof (cases rule: select_for_update_loop_cases [of i attempts en nowait fc p w])
    case finished
    with less.prems show ?thesis by simp
  next
    case found
    with less.prems show ?thesis by (simp add: scope_walk_append)
  next
    case (raised e)
    with less.prems show ?thesis by (simp add: scope_walk_append)
  next
    case (commit_failed m m')
    with less.prems show ?thesis by (simp add: scope_walk_append retry_events_def)
  next
    case (retry m)
    have "nat (attempts - int (Suc i)) < nat (attempts - int i)"
      using retry(1) by linarith
    moreover have "scope_walk True False (trace (emits (retry_events en nowait p i) w)) = Some False"
      using less.prems by (simp add: scope_walk_append retry_events_def)
    ultimately show ?thesis
      using less.hyps [of "Suc i"] retry(4) by simp
  qed
qed

text \<open>
  Claim C3 says that \<open>SelectForUpdateLock\<close> closes the transactional scope of a
  contended attempt before it sleeps, so that it never sleeps while a scope is open. It
  fails: with two attempts, both contended, the sleep of the first attempt is logged
  between \<open>AtomicEnter\<close> and \<open>AtomicCommit\<close>.
\<close>

theorem sleep_outside_scope_counterexample:
  "scope_walk False False
     (trace (snd (lock_enter (SelectForUpdateLock True 2) contended_env example_flow (IntPk 7)
        (init_world empty_cache)))) = None
   \<and> trace (snd (lock_enter (SelectForUpdateLock True 2) contended_env example_flow (IntPk 7)
        (init_world empty_cache))) =
      [AtomicEnter, SelectForUpdate True (IntPk 7), Sleep (3 / 5), AtomicCommit,
       AtomicEnter, SelectForUpdate True (IntPk 7), AtomicRollback]"
  by (simp add: select_for_update_loop.simps select_for_update_try_def contended_env_def
      init_world_def backoff_sleeps emit_def half_durations)

text \<open>
  Claim C3, amended. The \<^verbatim>\<open>except DatabaseError\<close> clause lies inside the
  \<^verbatim>\<open>with transaction.atomic()\<close> block, so every backoff sleep of \<open>SelectForUpdateLock\<close>
  happens while the scope of its attempt is still open; the scope is left after the sleep,
  and no attempt opens a scope while another one is open.
\<close>

theorem sleep_inside_scope:
  "scope_walk True False
     (trace (snd (lock_enter (SelectForUpdateLock nowait attempts) en fc p (init_world c))))
   \<noteq> None"
  using select_for_update_loop_scoped [of "init_world c" en nowait attempts fc p 0]
  by (simp add: init_world_def)

subsection \<open>The key of CacheLock\<close>

lemma cache_loop_adds:
  "CacheAdd k v t \<in> set (trace (snd (cache_loop en attempts expires fc p key i w))) \<Longrightarrow>
   CacheAdd k v t \<in> set (trace w) \<or> k = key"
proof (induction "nat (attempts - int i)" arbitrary: i w rule: less_induct)
  case less
  show ?case
  proof (cases rule: cache_loop_cases [of i attempts en expires fc p key w])
    case finished
    with less.prems show ?thesis by simp
  next
    case stored
    with less.prems show ?thesis by auto
  next
    case retry
    have "nat (attempts - int (Suc i)) < nat (attempts - int i)"
      using retry(1) by linarith
    from less.hyps [OF this, of "emits (Exists p #
            (if process_exists en i then [CacheAdd key 1 expires] else []) @
            (if int i \<noteq> attempts - 1
             then [Sleep (backoff_duration i (random_random en i))] else [])) w"] less.prems retry(3)
    show ?thesis by (auto split: if_splits)
  next
    case overflow
    with less.prems show ?thesis by (auto split: if_splits)
  qed
qed

text \<open>
  Claim C4 says that the lock key is \<^verbatim>\<open>"lock-{flow_label}/{process_pk}"\<close>. It fails:
  for the example flow and process 7 the key that \<^verbatim>\<open>cache.add\<close> gets carries the prefix
  \<^verbatim>\<open>django-viewflow-lock-\<close>, and no \<^verbatim>\<open>cache.add\<close> of the key the claim names is
  logged.
\<close>

theorem cache_lock_key_counterexample:
  "CacheAdd (''lock-'' @ flow_label example_flow @ ''/'' @ str_pk (IntPk 7)) 1 120 \<notin>
     set (trace (snd (lock_enter (CacheLock 5 120) free_env example_flow (IntPk 7)
        (init_world empty_cache))))
   \<and> trace (snd (lock_enter (CacheLock 5 120) free_env example_flow (IntPk 7)
        (init_world empty_cache))) =
       [Exists (IntPk 7), CacheAdd ''django-viewflow-lock-helloworld/hello/7'' 1 120,
        AtomicEnter, Yield]"
  by (simp add: cache_loop.simps [of _ _ _ _ _ _ 0] example_key cache_add_def
      free_env_def init_world_def emit_def empty_cache_def Let_def example_label str_pk_7)

text \<open>
  Claim C4, amended. The lock key of \<open>CacheLock\<close> is
  \<^verbatim>\<open>"django-viewflow-lock-{flow_label}/{process_pk}"\<close>: every \<^verbatim>\<open>cache.add\<close> of an
  acquisition has this key, the suspended generator remembers this key, and leaving the
  \<^verbatim>\<open>with\<close> statement deletes the key the generator remembers.
\<close>

theorem cache_lock_key_used:
  "(CacheAdd k v t \<in> set (trace (snd (lock_enter (CacheLock attempts expires) en fc p
        (init_world c)))) \<longrightarrow>
      k = ''django-viewflow-lock-'' @ flow_label fc @ ''/'' @ str_pk p)
   \<and> (fst (lock_enter (CacheLock attempts expires) en fc p w) = Inr fr \<longrightarrow>
      fr = CacheFrame (''django-viewflow-lock-'' @ flow_label fc @ ''/'' @ str_pk p))
   \<and> trace (snd (lock_exit en (CacheFrame key) exc w')) =
       trace w' @ [if exc = None then AtomicCommit else AtomicRollback, CacheDelete key]"
proof -
  let ?k = "cache_lock_key fc p"
  have "k = ?k"
    if "CacheAdd k v t \<in> set (trace (snd (lock_enter (CacheLock attempts expires) en fc p
        (init_world c))))"
  proof -
    obtain r w0 where loop: "cache_loop en attempts expires fc p ?k 0 (init_world c) = (r, w0)"
      by (cases "cache_loop en attempts expires fc p ?k 0 (init_world c)")
    have "CacheAdd k v t \<in> set (trace w0)"
      using that loop by (cases r) (simp_all add: Let_def)
    then show ?thesis
      using cache_loop_adds [of k v t en attempts expires fc p ?k 0 "init_world c"] loop
      by (simp add: init_world_def)
  qed
  moreover have "fr = CacheFrame ?k"
    if "fst (lock_enter (CacheLock attempts expires) en fc p w) = Inr fr"
    using that by (auto simp: Let_def split: prod.splits sum.splits)
  moreover have "trace (snd (lock_exit en (CacheFrame key) exc w')) =
       trace w' @ [if exc = None then AtomicCommit else AtomicRollback, CacheDelete key]"
    by (cases exc) (simp_all add: atomic_leave_def cache_delete_def)
  ultimately show ?thesis
    by (simp add: cache_lock_key_def)
qed

theorem cache_lock_key_used_witness:
  "CacheAdd ''django-viewflow-lock-helloworld/hello/7'' 1 120 \<in>
     set (trace (snd (lock_enter (CacheLock 5 120) free_env example_flow (IntPk 7)
        (init_world empty_cache))))
   \<and> ''django-viewflow-lock-helloworld/hello/7'' =
       ''django-viewflow-lock-'' @ flow_label example_flow @ ''/'' @ str_pk (IntPk 7)
   \<and> fst (lock_enter (CacheLock 5 120) free_env example_flow (IntPk 7) (init_world empty_cache))
       = Inr (CacheFrame ''django-viewflow-lock-helloworld/hello/7'')"
proof -
  have enter: "lock_enter (CacheLock 5 120) free_env example_flow (IntPk 7)
      (init_world empty_cache) =
      (Inr (CacheFrame ''django-viewflow-lock-helloworld/hello/7''),
       \<lparr>cache = empty_cache(''django-viewflow-lock-helloworld/hello/7'' \<mapsto> (1, 120)),
        trace = [Exists (IntPk 7), CacheAdd ''django-viewflow-lock-helloworld/hello/7'' 1 120,
                 AtomicEnter, Yield]\<rparr>)"
    by (simp add: cache_loop.simps [of _ _ _ _ _ _ 0] example_key cache_add_def
        free_env_def init_world_def emit_def empty_cache_def Let_def)
  show ?thesis
    using cache_lock_key_used
      [of "''django-viewflow-lock-helloworld/hello/7''" 1 120 5 120 free_env example_flow
        "IntPk 7" empty_cache "init_world empty_cache"
        "CacheFrame ''django-viewflow-lock-helloworld/hello/7''"]
    by (simp add: enter example_label str_pk_7 del: lock_enter.simps)
qed

subsection \<open>A missing row is contention\<close>

lemma as_contention_fields [simp]:
  "random_random (as_contention m en) = random_random en"
  "atomic_exit (as_contention m en) = atomic_exit en"
  "process_exists (as_contention m en) = process_exists en"
  "backoff (as_contention m en) i w = backoff en i w"
  by (simp_all add: as_contention_def backoff_def)

lemma as_contention_exists:
  "select_for_update_exists (as_contention m en) nowait i =
     (case select_for_update_exists en nowait i of
        Missing \<Rightarrow> Raises (DatabaseError m)
      | r \<Rightarrow> r)"
  by (simp add: as_contention_def)

lemma as_contention_loop:
  "select_for_update_loop (as_contention m en) nowait attempts fc p i w =
   select_for_update_loop en nowait attempts fc p i w"
proof (induction "nat (attempts - int i)" arbitrary: i w rule: less_induct)
  case less
  have IH: "select_for_update_loop (as_contention m en) nowait attempts fc p (Suc i) w' =
      select_for_update_loop en nowait attempts fc p (Suc i) w'" if "int i < attempts" for w'
    using that by (intro less.hyps) linarith
  show ?case
  proof (cases "int i < attempts")
    case False
    then show ?thesis
      by (simp add: select_for_update_loop.simps [of _ _ _ _ _ i])
  next
    case lt: True
    show ?thesis
    proof (cases "select_for_update_exists en nowait i")
      case Found
      then have "select_for_update_try (as_contention m en) nowait i = Inr ()"
        and "select_for_update_try en nowait i = Inr ()"
        by (simp_all add: as_contention_exists select_for_update_try_def)
      then show ?thesis
        using lt by (simp add: select_for_update_loop.simps [of _ _ _ _ _ i])
    next
      case Missing
      then have "select_for_update_try (as_contention m en) nowait i = Inl (DatabaseError m)"
        and "select_for_update_try en nowait i = Inl (DatabaseError ''Process not exists'')"
        by (simp_all add: as_contention_exists select_for_update_try_def)
      then show ?thesis
        using lt IH
        by (simp add: select_for_update_loop.simps [of _ _ _ _ _ i] Let_def
            split: option.splits sum.splits)
    next
      case (Raises e)
      then have "select_for_update_try (as_contention m en) nowait i = Inl e"
        and "select_for_update_try en nowait i = Inl e"
        by (simp_all add: as_contention_exists select_for_update_try_def)
      then show ?thesis
        using lt IH
        by (cases e)
          (simp_all add: select_for_update_loop.simps [of _ _ _ _ _ i] Let_def
            split: option.splits sum.splits)
    qed
  qed
qed

text \<open>
  Claim C5. \<open>SelectForUpdateLock\<close> treats an attempt that finds no row exactly as an
  attempt whose query raises a contention error: in an environment where every missing row
  is reported as a \<^verbatim>\<open>DatabaseError\<close> instead (such an environment has no missing row
  left), entering the lock, and the whole \<^verbatim>\<open>with\<close> statement, give the same result, the
  same log (sleeps and retries included) and the same cache. An attempt that finds no row and is not the last one takes the backoff and
  goes on to the next attempt (when its scope closes without error; from attempt 35 on
  the backoff cannot sleep and raises \<^verbatim>\<open>OverflowError\<close>, as it does after contention),
  and an attempt that finds no row and is the last one raises \<^verbatim>\<open>FlowLockFailed\<close>: the
  \<^verbatim>\<open>DatabaseError('Process not exists')\<close> of the module never leaves the lock.
\<close>

theorem missing_row_is_contention:
  "lock_enter (SelectForUpdateLock nowait attempts) (as_contention m en) fc p w =
     lock_enter (SelectForUpdateLock nowait attempts) en fc p w
   \<and> with_lock (SelectForUpdateLock nowait attempts) (as_contention m en) fc p body w =
     with_lock (SelectForUpdateLock nowait attempts) en fc p body w
   \<and> select_for_update_exists (as_contention m en) nowait i \<noteq> Missing
   \<and> (select_for_update_exists en nowait i = Missing \<and> int i < attempts - 1 \<and> i < 35
        \<and> atomic_exit en i = None \<longrightarrow>
      select_for_update_loop en nowait attempts fc p i w =
        select_for_update_loop en nowait attempts fc p (Suc i)
          (w\<lparr>trace := trace w @
             [AtomicEnter, SelectForUpdate nowait p,
              Sleep (backoff_duration i (random_random en i)), AtomicCommit]\<rparr>))
   \<and> (select_for_update_exists en nowait i = Missing \<and> int i < attempts - 1 \<and> 35 \<le> i
        \<longrightarrow>
      select_for_update_loop en nowait attempts fc p i w =
        (Inl (backoff_error i),
         w\<lparr>trace := trace w @ [AtomicEnter, SelectForUpdate nowait p, AtomicRollback]\<rparr>)
      \<and> (\<exists>s. backoff_error i = OverflowError s))
   \<and> (select_for_update_exists en nowait i = Missing \<and> int i = attempts - 1 \<longrightarrow>
      select_for_update_loop en nowait attempts fc p i w =
        (Inl (FlowLockFailed (''Lock failed for '' @ flow_str fc)),
         w\<lparr>trace := trace w @ [AtomicEnter, SelectForUpdate nowait p, AtomicRollback]\<rparr>))"
proof -
  have "lock_exit (as_contention m en) fr exc w' = lock_exit en fr exc w'" for fr exc w'
    by (cases fr; cases exc) (simp_all add: atomic_leave_def)
  then have "with_lock (SelectForUpdateLock nowait attempts) (as_contention m en) fc p body w =
     with_lock (SelectForUpdateLock nowait attempts) en fc p body w"
    by (simp add: with_lock_def as_contention_loop split: prod.splits sum.splits)
  moreover have "select_for_update_exists (as_contention m en) nowait i \<noteq> Missing"
    by (simp add: as_contention_exists split: query_result.splits)
  moreover have "select_for_update_loop en nowait attempts fc p i w =
        select_for_update_loop en nowait attempts fc p (Suc i)
          (w\<lparr>trace := trace w @
             [AtomicEnter, SelectForUpdate nowait p,
              Sleep (backoff_duration i (random_random en i)), AtomicCommit]\<rparr>)"
    if "select_for_update_exists en nowait i = Missing" "int i < attempts - 1" "i < 35"
      "atomic_exit en i = None"
    using that
    by (simp add: select_for_update_loop.simps [of _ _ _ _ _ i] select_for_update_try_def
        backoff_sleeps emit_def)
  moreover have "select_for_update_loop en nowait attempts fc p i w =
        (Inl (backoff_error i),
         w\<lparr>trace := trace w @ [AtomicEnter, SelectForUpdate nowait p, AtomicRollback]\<rparr>)"
    if "select_for_update_exists en nowait i = Missing" "int i < attempts - 1" "35 \<le> i"
    using that
    by (simp add: select_for_update_loop.simps [of _ _ _ _ _ i] select_for_update_try_def
        backoff_overflows emit_def)
  moreover have "\<exists>s. backoff_error i = OverflowError s"
    by (simp add: backoff_error_def)
  moreover have "select_for_update_loop en nowait attempts fc p i w =
        (Inl (FlowLockFailed (''Lock failed for '' @ flow_str fc)),
         w\<lparr>trace := trace w @ [AtomicEnter, SelectForUpdate nowait p, AtomicRollback]\<rparr>)"
    if "select_for_update_exists en nowait i = Missing" "int i = attempts - 1"
    using that
    by (simp add: select_for_update_loop.simps [of _ _ _ _ _ i] select_for_update_try_def
        emit_def lock_failed_def)
  ultimately show ?thesis
    by (simp add: as_contention_loop)
qed

text \<open>
  The theorem at work in the database where the rows after the first are missing: the
  second of three attempts sleeps and goes on to the third, the second of two attempts
  raises \<^verbatim>\<open>FlowLockFailed\<close>.
\<close>

theorem missing_row_is_contention_witness:
  "select_for_update_loop contended_env True 3 example_flow (IntPk 7) 1 (init_world empty_cache) =
     select_for_update_loop contended_env True 3 example_flow (IntPk 7) 2
       \<lparr>cache = empty_cache,
        trace = [AtomicEnter, SelectForUpdate True (IntPk 7), Sleep (6 / 5), AtomicCommit]\<rparr>
   \<and> select_for_update_loop contended_env True 2 example_flow (IntPk 7) 1
       (init_world empty_cache) =
     (Inl (FlowLockFailed ''Lock failed for HelloFlow''),
      \<lparr>cache = empty_cache,
       trace = [AtomicEnter, SelectForUpdate True (IntPk 7), AtomicRollback]\<rparr>)"
proof -
  have missing: "select_for_update_exists contended_env True (Suc 0) = Missing"
    and commit: "atomic_exit contended_env (Suc 0) = None"
    by (simp_all add: contended_env_def)
  show ?thesis
    using missing_row_is_contention
        [of True 3 "''x''" contended_env example_flow "IntPk 7" "init_world empty_cache"
          failing_body 1]
      missing_row_is_contention
        [of True 2 "''x''" contended_env example_flow "IntPk 7" "init_world empty_cache"
          failing_body 1]
    by (simp add: missing commit contended_random half_durations init_world_def example_str
        numeral_2_eq_2 del: lock_enter.simps)
qed

subsection \<open>The backoff\<close>










subsection \<open>Exceptions of the body\<close>

text \<open>
  Claim C7. For each of the three lock implementations: when the generator has yielded
  and the body raises an exception \<open>e\<close>, the \<^verbatim>\<open>with\<close> statement raises the same
  \<open>e\<close>, after the transactional scope has rolled back and, for \<open>CacheLock\<close>, after the
  lock key has been deleted.
\<close>

theorem body_exception_propagates:
  assumes "lock_enter impl en fc p w = (Inr fr, w1)"
    and "body w1 = (Some e, w2)"
  shows "fst (with_lock impl en fc p body w) = Some e
     \<and> trace (snd (with_lock impl en fc p body w)) =
         trace w2 @ (case fr of CacheFrame key \<Rightarrow> [AtomicRollback, CacheDelete key]
                     | _ \<Rightarrow> [AtomicRollback])"
  using assms
  by (cases fr) (simp_all add: with_lock_def atomic_leave_def cache_delete_def)

theorem body_exception_propagates_witness:
  "fst (with_lock (SelectForUpdateLock True 5) free_env example_flow (IntPk 7) failing_body
          (init_world empty_cache)) = Some (OtherError ''task failed'')
   \<and> trace (snd (with_lock (SelectForUpdateLock True 5) free_env example_flow (IntPk 7)
          failing_body (init_world empty_cache))) =
       [AtomicEnter, SelectForUpdate True (IntPk 7), Yield, AtomicRollback]"
proof -
  let ?w1 = "\<lparr>cache = empty_cache,
              trace = [AtomicEnter, SelectForUpdate True (IntPk 7), Yield]\<rparr>"
  have enter: "lock_enter (SelectForUpdateLock True 5) free_env example_flow (IntPk 7)
      (init_world empty_cache) = (Inr (SelectForUpdateFrame 0), ?w1)"
    by (simp add: select_for_update_loop.simps [of _ _ _ _ _ 0] select_for_update_try_def
        free_env_def init_world_def emit_def)
  have body: "failing_body ?w1 = (Some (OtherError ''task failed''), ?w1)"
    by (simp add: failing_body_def)
  show ?thesis
    using body_exception_propagates
      [of "SelectForUpdateLock True 5" free_env example_flow "IntPk 7" "init_world empty_cache"
        "SelectForUpdateFrame 0" ?w1 failing_body "OtherError ''task failed''" ?w1]
      enter body
    by simp
qed

subsection \<open>CacheLock when the key is held\<close>

text \<open>
  Claim C8. \<open>CacheLock\<close> with two attempts, the lock key already in the cache and the
  process row there in both attempts: the statement logs the existence check and the failed
  \<^verbatim>\<open>cache.add\<close> of the first attempt, one sleep, the existence check and the failed
  \<^verbatim>\<open>cache.add\<close> of the second attempt, and raises \<^verbatim>\<open>FlowLockFailed\<close>. The body does
  not run (there is no \<open>Yield\<close> and the result does not depend on the body), and the cache
  is unchanged.
\<close>

theorem cache_lock_held_two_attempts:
  assumes held: "cache w (cache_lock_key fc p) = Some v"
    and ex: "process_exists en 0" "process_exists en 1"
  shows "with_lock (CacheLock 2 expires) en fc p body w =
     (Some (FlowLockFailed (''Lock failed for '' @ flow_str fc)),
      w\<lparr>trace := trace w @
        [Exists p, CacheAdd (cache_lock_key fc p) 1 expires,
         Sleep (backoff_duration 0 (random_random en 0)),
         Exists p, CacheAdd (cache_lock_key fc p) 1 expires]\<rparr>)"
proof -
  let ?k = "cache_lock_key fc p"
  have add: "cache_add ?k 1 expires w' = (False, emit (CacheAdd ?k 1 expires) w')"
    if "cache w' ?k = Some v" for w'
    using that by (simp add: cache_add_def)
  have "cache_loop en 2 expires fc p ?k 0 w =
     (Inl (lock_failed fc),
      emit (CacheAdd ?k 1 expires) (emit (Exists p)
        (emit (Sleep (backoff_duration 0 (random_random en 0)))
          (emit (CacheAdd ?k 1 expires) (emit (Exists p) w)))))"
    using ex held
    by (simp add: cache_loop.simps [of _ _ _ _ _ _ 0] cache_loop.simps [of _ _ _ _ _ _ "Suc 0"]
        cache_loop.simps [of _ _ _ _ _ _ "Suc (Suc 0)"] add backoff_sleeps)
  then show ?thesis
    by (simp add: with_lock_def lock_failed_def emit_def Let_def)
qed

theorem cache_lock_held_two_attempts_witness:
  "with_lock (CacheLock 2 120) contended_env example_flow (IntPk 7) failing_body
     (init_world held_cache) =
     (Some (FlowLockFailed ''Lock failed for HelloFlow''),
      \<lparr>cache = held_cache,
       trace = [Exists (IntPk 7), CacheAdd ''django-viewflow-lock-helloworld/hello/7'' 1 120,
                Sleep (3 / 5),
                Exists (IntPk 7), CacheAdd ''django-viewflow-lock-helloworld/hello/7'' 1 120]\<rparr>)"
proof -
  have held: "cache (init_world held_cache) (cache_lock_key example_flow (IntPk 7)) = Some (1, 120)"
    by (simp add: init_world_def held_cache_def)
  have ex: "process_exists contended_env 0" "process_exists contended_env 1"
    by (simp_all add: contended_env_def)
  show ?thesis
    using cache_lock_held_two_attempts [OF held ex, of 120 failing_body]
    by (simp add: example_key example_str init_world_def contended_random half_durations)
qed

subsection \<open>NoLock\<close>

text \<open>
  Claim C9. \<open>NoLock\<close>, for every process key and every state of the world: entering
  logs \<open>AtomicEnter\<close> and \<open>Yield\<close> and nothing else, and always yields; leaving logs the
  commit or the rollback and nothing else. The cache is not touched, there is no
  \<^verbatim>\<open>select_for_update\<close>, no sleep, and the lock raises no \<^verbatim>\<open>FlowLockFailed\<close> (what
  leaves the statement is the exception of the body or the \<^verbatim>\<open>DatabaseError\<close> of the
  commit). A second acquisition on the same key, entered while the first is still held, is
  granted too.
\<close>

theorem no_lock_only_transaction:
  "lock_enter NoLock en fc p w = (Inr NoLockFrame, w\<lparr>trace := trace w @ [AtomicEnter, Yield]\<rparr>)
   \<and> lock_exit en NoLockFrame exc w'
       = (case exc of Some e \<Rightarrow> (Some e, w'\<lparr>trace := trace w' @ [AtomicRollback]\<rparr>)
          | None \<Rightarrow> (map_option DatabaseError (atomic_exit en 0),
                      w'\<lparr>trace := trace w' @ [AtomicCommit]\<rparr>))
   \<and> fst (lock_exit en NoLockFrame None w') \<noteq> Some (FlowLockFailed m)
   \<and> fst (lock_enter NoLock en' fc p (snd (lock_enter NoLock en fc p w))) = Inr NoLockFrame"
  by (auto simp add: emit_def atomic_leave_def split: option.split)

subsection \<open>No attempts at all\<close>

text \<open>
  Claim C10. With \<open>attempts = 0\<close>, \<open>CacheLock\<close> raises \<^verbatim>\<open>FlowLockFailed\<close> at once:
  the \<^verbatim>\<open>else\<close> clause of its loop runs after zero iterations, nothing is logged.
  \<open>SelectForUpdateLock\<close> logs nothing either, but its generator ends without a
  \<^verbatim>\<open>yield\<close>: the \<^verbatim>\<open>with\<close> statement raises the \<^verbatim>\<open>RuntimeError\<close> of contextlib,
  which is no \<^verbatim>\<open>FlowLockFailed\<close>. In both cases the body does not run.
\<close>

theorem attempts_zero:
  "lock_enter (CacheLock 0 expires) en fc p w
     = (Inl (FlowLockFailed (''Lock failed for '' @ flow_str fc)), w)
   \<and> with_lock (CacheLock 0 expires) en fc p body w
     = (Some (FlowLockFailed (''Lock failed for '' @ flow_str fc)), w)
   \<and> lock_enter (SelectForUpdateLock nowait 0) en fc p w = (Inl didnt_yield, w)
   \<and> with_lock (SelectForUpdateLock nowait 0) en fc p body w = (Some didnt_yield, w)
   \<and> didnt_yield = RuntimeError (''generator didn'' @ [char_of (39::nat)] @ ''t yield'')
   \<and> didnt_yield \<noteq> FlowLockFailed m"
  by (simp add: with_lock_def cache_loop.simps select_for_update_loop.simps lock_failed_def
      didnt_yield_def)

end
